theory Spec2Isabelle
  imports Main
begin

section \<open>The documentation extractor of GutenDocs (src/parser/extract.js)\<close>

text \<open>
  The extractor selects the source files of a project, parses each of them with the
  acorn parser, keeps the block comments that start with a star, binds each of them to
  the syntax node found after it and records a name for it. This theory embeds
  \<^verbatim>\<open>acornParse\<close>, \<^verbatim>\<open>errorHandler\<close> and \<^verbatim>\<open>extract\<close> of
  \<^verbatim>\<open>src/parser/extract.js\<close>.

  The libraries the file calls are not part of the repository: the acorn parser
  (\<^verbatim>\<open>parse\<close>), the tree walker of acorn (\<^verbatim>\<open>findNodeAfter\<close>), the directory walker
  behind \<^verbatim>\<open>exclude\<close>, the settings resolver \<^verbatim>\<open>getRC\<close> and the file system. Their
  outcomes are parameters of the model (the record \<open>env\<close> below), apart from
  \<^verbatim>\<open>findNodeAfter\<close>, which is modelled from the specification.
\<close>

subsection \<open>Errors\<close>

text \<open>
  Every exception of the program is a value: the diagnostic of the parser, the
  \<^verbatim>\<open>TypeError\<close> of JavaScript for a property read on \<^verbatim>\<open>null\<close>, a failure of
  \<^verbatim>\<open>fs.readFileSync\<close> and a failure of the directory walk.
\<close>

datatype error =
    SyntaxError string
  | TypeError
  | ReadError string
  | WalkError string

subsection \<open>Syntax trees\<close>

text \<open>
  \<^verbatim>\<open>acornParse\<close> reads four things of a node: its \<^verbatim>\<open>type\<close>, and, by type,
  \<^verbatim>\<open>node.key.name\<close>, \<^verbatim>\<open>node.declarations[i].id.name\<close> or \<^verbatim>\<open>node.id.name\<close>.
  The nodes that stand at \<^verbatim>\<open>key\<close> and \<^verbatim>\<open>id\<close> are identifiers, patterns or other
  expressions; only an identifier has a \<^verbatim>\<open>name\<close> property. The \<^verbatim>\<open>id\<close> of a
  function declaration is an identifier or \<^verbatim>\<open>null\<close> (the anonymous function of
  \<^verbatim>\<open>export default function () {}\<close>).
\<close>

datatype ident_node =
    Identifier string
  | ObjectPattern
  | ArrayPattern
  | OtherExpression

datatype node_type =
    MethodDefinition ident_node
  | VariableDeclaration "ident_node list"
  | FunctionDeclaration "ident_node option"
  | OtherNode

datatype node = Node (ntype: node_type) (nstart: nat) (children: "node list")

text \<open>
  Reading the property \<^verbatim>\<open>name\<close> of an object that has none gives
  \<^verbatim>\<open>undefined\<close>, here \<open>None\<close>.
\<close>

fun name_of :: "ident_node \<Rightarrow> string option" where
  "name_of (Identifier s) = Some s"
| "name_of ObjectPattern = None"
| "name_of ArrayPattern = None"
| "name_of OtherExpression = None"

subsection \<open>The objects of the extractor\<close>

text \<open>
  \<^verbatim>\<open>{comment, pos}\<close> is an entry of the local array \<^verbatim>\<open>arr\<close>,
  \<^verbatim>\<open>{comment, name}\<close> an entry of \<^verbatim>\<open>tagContent\<close> (fields \<open>tcomment\<close> and
  \<open>tname\<close> here, since a record field name is global), and \<^verbatim>\<open>{content, name}\<close> the
  object \<^verbatim>\<open>tag\<close> made for each file.
\<close>

record raw_comment =
  comment :: string
  pos :: nat

record tagged_comment =
  tcomment :: string
  tname :: "string option"

record file_tag =
  content :: "tagged_comment list"
  name :: string

text \<open>
  A comment as the parser reports it to \<^verbatim>\<open>onComment\<close>: whether it is a block
  comment, its text, its start and its end offset.
\<close>

type_synonym comment_event = "bool \<times> string \<times> nat \<times> nat"

subsection \<open>The node after a position\<close>

text \<open>
  Modelled from the spec: \<^verbatim>\<open>findNodeAfter\<close> belongs to the acorn library, which is
  not among the sources. The specification (section 4.3) has it find "the syntax node
  whose start offset is the smallest offset \<ge> the comment's end offset (i.e., the nearest
  following node -- a forward nearest-neighbor search over the tree, not a
  parent/ancestor lookup)", and nothing when no such node exists. The search below visits
  the nodes of the tree parent first, and among nodes of equal start keeps the one it
  met first.
\<close>

fun nodes :: "node \<Rightarrow> node list" where
  "nodes (Node t s cs) = Node t s cs # concat (map nodes cs)"

fun nearest :: "nat \<Rightarrow> node list \<Rightarrow> node option" where
  "nearest p [] = None"
| "nearest p (n # ns) =
     (if nstart n < p then nearest p ns
      else (case nearest p ns of
              None \<Rightarrow> Some n
            | Some m \<Rightarrow> if nstart m < nstart n then Some m else Some n))"

definition findNodeAfter :: "node \<Rightarrow> nat \<Rightarrow> node option" where
  "findNodeAfter tree p = nearest p (nodes tree)"

subsection \<open>The environment\<close>

text \<open>
  What the extractor gets from outside: the settings (\<^verbatim>\<open>getRC()\<close>), the outcome of
  the directory walk started by \<^verbatim>\<open>exclude\<close> (the list of selected files, or an error),
  \<^verbatim>\<open>path.dirname\<close>, \<^verbatim>\<open>fs.readFileSync\<close> and the parser. The parser reports to
  \<^verbatim>\<open>onComment\<close> the comments it meets, in the order of the text, and then either
  throws (at the first syntax error) or returns the tree: its outcome is the list of the
  comments reported and the error or the tree. A failure of \<^verbatim>\<open>exclude\<close> stands for
  the rejection of its promise and for an exception of \<^verbatim>\<open>getRC\<close> alike.

  \<open>isTTY\<close> tells whether \<^verbatim>\<open>process.stdout\<close> is a terminal. Only then does it have
  the methods \<^verbatim>\<open>clearLine\<close> and \<^verbatim>\<open>cursorTo\<close>: on a pipe or a file they are
  \<^verbatim>\<open>undefined\<close>, and calling one raises a \<^verbatim>\<open>TypeError\<close>.
\<close>

record gutenrc =
  absPath :: string
  verbosity :: int

record env =
  getRC :: gutenrc
  exclude :: "string list \<Rightarrow> error + string list"
  dirname :: "string \<Rightarrow> string"
  readFileSync :: "string \<Rightarrow> error + string"
  parse :: "string \<Rightarrow> comment_event list \<times> (error + node)"
  isTTY :: bool

subsection \<open>acornParse\<close>

text \<open>
  The callback \<^verbatim>\<open>onComment\<close> pushes a block comment whose first character is a star
  onto \<^verbatim>\<open>arr\<close>; \<^verbatim>\<open>t[0]\<close> of the empty string is \<^verbatim>\<open>undefined\<close>, which is not a
  star.
\<close>

definition onComment :: "bool \<Rightarrow> string \<Rightarrow> nat \<Rightarrow> nat \<Rightarrow> raw_comment list \<Rightarrow> raw_comment list" where
  "onComment b t s d arr =
     (if b \<and> (case t of [] \<Rightarrow> False | c # _ \<Rightarrow> c = CHR ''*'')
      then arr @ [\<lparr>comment = t, pos = d\<rparr>]
      else arr)"

fun collect :: "comment_event list \<Rightarrow> raw_comment list \<Rightarrow> raw_comment list" where
  "collect [] arr = arr"
| "collect ((b, t, s, d) # evs) arr = collect evs (onComment b t s d arr)"

text \<open>
  The body of \<^verbatim>\<open>arr.forEach\<close> for one comment: \<open>bindNode\<close> is the
  \<^verbatim>\<open>switch\<close> on the type of the node found, \<open>pushNames\<close> the inner
  \<^verbatim>\<open>forEach\<close> over the declarations. Each returns the exception it raised, if any,
  and \<^verbatim>\<open>tagContent\<close> as it stands then: the array is the caller's, and what was
  pushed stays pushed. Reading \<^verbatim>\<open>node.id.name\<close> when \<^verbatim>\<open>node.id\<close> is
  \<^verbatim>\<open>null\<close> raises a \<^verbatim>\<open>TypeError\<close>.
\<close>

fun pushNames :: "string \<Rightarrow> ident_node list \<Rightarrow> tagged_comment list \<Rightarrow> tagged_comment list" where
  "pushNames c [] tagContent = tagContent"
| "pushNames c (declaration # ds) tagContent =
     pushNames c ds (tagContent @ [\<lparr>tcomment = c, tname = name_of declaration\<rparr>])"

definition bindNode :: "node \<Rightarrow> raw_comment \<Rightarrow> tagged_comment list \<Rightarrow> error option \<times> tagged_comment list" where
  "bindNode node c tagContent =
     (case ntype node of
        MethodDefinition key \<Rightarrow>
          (None, tagContent @ [\<lparr>tcomment = comment c, tname = name_of key\<rparr>])
      | VariableDeclaration declarations \<Rightarrow>
          (None, pushNames (comment c) declarations tagContent)
      | FunctionDeclaration ident \<Rightarrow>
          (case ident of
             None \<Rightarrow> (Some TypeError, tagContent)
           | Some i \<Rightarrow> (None, tagContent @ [\<lparr>tcomment = comment c, tname = name_of i\<rparr>]))
      | OtherNode \<Rightarrow> (None, tagContent))"

definition bindComment :: "node \<Rightarrow> raw_comment \<Rightarrow> tagged_comment list \<Rightarrow> error option \<times> tagged_comment list" where
  "bindComment tree c tagContent =
     (case findNodeAfter tree (pos c) of
        None \<Rightarrow> (None, tagContent)
      | Some node \<Rightarrow> bindNode node c tagContent)"

fun bindAll :: "node \<Rightarrow> raw_comment list \<Rightarrow> tagged_comment list \<Rightarrow> error option \<times> tagged_comment list" where
  "bindAll tree [] tagContent = (None, tagContent)"
| "bindAll tree (c # cs) tagContent =
     (case bindComment tree c tagContent of
        (Some e, tagContent') \<Rightarrow> (Some e, tagContent')
      | (None, tagContent') \<Rightarrow> bindAll tree cs tagContent')"

text \<open>
  \<^verbatim>\<open>acornParse\<close>: the array \<^verbatim>\<open>arr\<close> is local, so an exception of the parser
  leaves \<^verbatim>\<open>tagContent\<close> as it was, whatever was collected before.
\<close>

definition acornParse :: "env \<Rightarrow> string \<Rightarrow> tagged_comment list \<Rightarrow> error option \<times> tagged_comment list" where
  "acornParse E text tagContent =
     (case parse E text of (evs, outcome) \<Rightarrow>
        (let arr = collect evs [] in
         case outcome of
           Inl e \<Rightarrow> (Some e, tagContent)
         | Inr tree \<Rightarrow> bindAll tree arr tagContent))"

subsection \<open>errorHandler and extract\<close>

text \<open>
  What the program prints is kept as a list of events; the wording of the lines is left
  out. \<^verbatim>\<open>console.log\<close> and \<^verbatim>\<open>process.stdout.write\<close> exist on every kind of
  output and are taken to succeed. The events are
  the two reports of \<^verbatim>\<open>errorHandler\<close> (the whole error at verbosity 4 and above,
  its message at verbosity 3), the progress line of a file (its index and the first 60
  characters of its path), the number of files processed, the list of the unparsable
  files with its length, and their number alone.
\<close>

datatype printed =
    ErrorTrace string error
  | ErrorMessage string error
  | Progress nat string
  | FilesProcessed nat
  | UnparsableFiles nat "string list"
  | UnparsableCount nat

definition errorHandler :: "string \<Rightarrow> gutenrc \<Rightarrow> error \<Rightarrow> string list \<times> printed list \<Rightarrow> string list \<times> printed list" where
  "errorHandler file rc e st =
     (case st of (badFiles, out) \<Rightarrow>
        (badFiles @ [file],
         if verbosity rc \<ge> 4 then out @ [ErrorTrace file e]
         else if verbosity rc \<ge> 3 then out @ [ErrorMessage file e]
         else out))"

text \<open>
  The callback of \<^verbatim>\<open>list.map\<close>, for the file at index \<open>fileCount\<close>. A failure of
  \<^verbatim>\<open>readFileSync\<close> is outside the \<^verbatim>\<open>try\<close> and leaves the callback; an exception of
  \<^verbatim>\<open>acornParse\<close> is caught and handed to \<^verbatim>\<open>errorHandler\<close>. The progress line,
  at verbosity 2 and above, starts with \<^verbatim>\<open>process.stdout.clearLine()\<close>, outside the
  \<^verbatim>\<open>try\<close> as well: when the output is not a terminal the call raises a
  \<^verbatim>\<open>TypeError\<close> that leaves the callback, after the work on the file is done.
\<close>

definition processFile :: "env \<Rightarrow> string \<Rightarrow> nat \<Rightarrow> string list \<times> printed list \<Rightarrow> error + file_tag \<times> string list \<times> printed list" where
  "processFile E file fileCount st =
     (case readFileSync E (dirname E (absPath (getRC E)) @ ''/'' @ file) of
        Inl e \<Rightarrow> Inl e
      | Inr text \<Rightarrow>
          (case acornParse E text [] of (r, tagContent) \<Rightarrow>
             (case (case r of None \<Rightarrow> st | Some e \<Rightarrow> errorHandler file (getRC E) e st) of
                (badFiles, out) \<Rightarrow>
                  if verbosity (getRC E) \<ge> 2
                  then (if isTTY E
                        then Inr (\<lparr>content = tagContent, name = file\<rparr>, badFiles,
                                  out @ [Progress fileCount (take 60 file)])
                        else Inl TypeError)
                  else Inr (\<lparr>content = tagContent, name = file\<rparr>, badFiles, out))))"

text \<open>The path \<^verbatim>\<open>extract\<close> reads a selected file from.\<close>

abbreviation filePath :: "env \<Rightarrow> string \<Rightarrow> string" where
  "filePath E file \<equiv> dirname E (absPath (getRC E)) @ ''/'' @ file"

text \<open>
  The progress line can be printed: it is not asked for, or the output is a terminal.
\<close>

abbreviation progressOk :: "env \<Rightarrow> bool" where
  "progressOk E \<equiv> verbosity (getRC E) < 2 \<or> isTTY E"

fun mapFiles :: "env \<Rightarrow> string list \<Rightarrow> nat \<Rightarrow> string list \<times> printed list \<Rightarrow> error + file_tag list \<times> string list \<times> printed list" where
  "mapFiles E [] fileCount st = Inr ([], st)"
| "mapFiles E (file # files) fileCount st =
     (case processFile E file fileCount st of
        Inl e \<Rightarrow> Inl e
      | Inr (tag, st') \<Rightarrow>
          (case mapFiles E files (Suc fileCount) st' of
             Inl e \<Rightarrow> Inl e
           | Inr (tags, st'') \<Rightarrow> Inr (tag # tags, st'')))"

text \<open>What \<^verbatim>\<open>extract\<close> prints after the loop.\<close>

definition summary :: "gutenrc \<Rightarrow> nat \<Rightarrow> string list \<Rightarrow> printed list" where
  "summary rc n badFiles =
     FilesProcessed n #
     (if length badFiles \<noteq> 0 \<and> verbosity rc \<ge> 2 then [UnparsableFiles (length badFiles) badFiles]
      else if length badFiles \<noteq> 0 \<and> verbosity rc \<ge> 1 then [UnparsableCount (length badFiles)]
      else [])"

text \<open>
  The run up to the last statement of \<^verbatim>\<open>extract\<close>: the array \<^verbatim>\<open>result\<close>, the
  local array \<^verbatim>\<open>badFiles\<close> and what was printed.
\<close>

definition extractRun :: "env \<Rightarrow> string list \<Rightarrow> error + file_tag list \<times> string list \<times> printed list" where
  "extractRun E arr =
     (case exclude E arr of
        Inl e \<Rightarrow> Inl e
      | Inr list \<Rightarrow>
          (case mapFiles E list 0 ([], []) of
             Inl e \<Rightarrow> Inl e
           | Inr (result, badFiles, out) \<Rightarrow>
               Inr (result, badFiles, out @ summary (getRC E) (length list) badFiles)))"

text \<open>
  The promise \<^verbatim>\<open>extract\<close> returns: rejected with an error (\<open>Inl\<close>), or resolved with
  \<^verbatim>\<open>result\<close> (\<open>Inr\<close>). The function is \<open>extractFiles\<close> here, \<open>extract\<close> being a
  command of Isabelle.
\<close>

definition extractFiles :: "env \<Rightarrow> string list \<Rightarrow> error + file_tag list" where
  "extractFiles E arr =
     (case extractRun E arr of
        Inl e \<Rightarrow> Inl e
      | Inr (result, badFiles, out) \<Rightarrow> Inr result)"

subsection \<open>Sample texts\<close>

text \<open>
  The texts of the scenarios of the specification and a few more, each with the comments
  acorn reports for it and the tree acorn returns. A node is written with its start
  offset and the nodes below it; \<open>OtherNode\<close> stands for every type \<^verbatim>\<open>acornParse\<close> ignores
  (\<^verbatim>\<open>Program\<close>, identifiers, blocks, declarators, ...).
\<close>

definition add_src :: string where
  "add_src = ''/** Adds two numbers */'' @ [CHR 0x0A] @ ''function add(a, b) { return a + b; }''"

definition add_comments :: "comment_event list" where
  "add_comments = [(True, ''* Adds two numbers '', 0, 23)]"

definition add_ast :: node where
  "add_ast =
     Node OtherNode 0
       [Node (FunctionDeclaration (Some (Identifier ''add''))) 24
          [Node OtherNode 33 [], Node OtherNode 37 [], Node OtherNode 40 [],
           Node OtherNode 43 [Node OtherNode 45 [Node OtherNode 52
             [Node OtherNode 52 [], Node OtherNode 56 []]]]]]"

definition flags_src :: string where
  "flags_src = ''/** Config flag */'' @ [CHR 0x0A] @ ''const DEBUG = true, VERBOSE = false;''"

definition flags_comments :: "comment_event list" where
  "flags_comments = [(True, ''* Config flag '', 0, 18)]"

definition flags_ast :: node where
  "flags_ast =
     Node OtherNode 0
       [Node (VariableDeclaration [Identifier ''DEBUG'', Identifier ''VERBOSE'']) 19
          [Node OtherNode 25 [Node OtherNode 25 [], Node OtherNode 33 []],
           Node OtherNode 39 [Node OtherNode 39 [], Node OtherNode 49 []]]]"

text \<open>
  A text with a syntax error after a doc comment:
  \<^verbatim>\<open>/** Half */\<close>, then \<^verbatim>\<open>function half( {\<close> on the next line.
\<close>

definition half_src :: string where
  "half_src = ''/** Half */'' @ [CHR 0x0A] @ ''function half( {''"

definition half_comments :: "comment_event list" where
  "half_comments = [(True, ''* Half '', 0, 11)]"

text \<open>
  A text whose second doc comment stands before an anonymous function:
  \<^verbatim>\<open>/** a */\<close>, \<^verbatim>\<open>function f() {}\<close> and
  \<^verbatim>\<open>export default /** b */ function () {}\<close> on three lines. The declaration
  exported has the type \<^verbatim>\<open>FunctionDeclaration\<close> and the \<^verbatim>\<open>id\<close> \<^verbatim>\<open>null\<close>.
\<close>

definition anon_src :: string where
  "anon_src = ''/** a */'' @ [CHR 0x0A] @ ''function f() {}'' @ [CHR 0x0A]
       @ ''export default /** b */ function () {}''"

definition anon_comments :: "comment_event list" where
  "anon_comments = [(True, ''* a '', 0, 8), (True, ''* b '', 40, 48)]"

definition anon_ast :: node where
  "anon_ast =
     Node OtherNode 0
       [Node (FunctionDeclaration (Some (Identifier ''f''))) 9
          [Node OtherNode 18 [], Node OtherNode 22 []],
        Node OtherNode 25
          [Node (FunctionDeclaration None) 49 [Node OtherNode 61 []]]]"

text \<open>
  A doc comment after the last statement: \<^verbatim>\<open>function f() {}\<close>, then
  \<^verbatim>\<open>/** trailing */\<close> on the next line.
\<close>

definition trailing_comment :: raw_comment where
  "trailing_comment = \<lparr>comment = ''* trailing '', pos = 31\<rparr>"

definition trailing_ast :: node where
  "trailing_ast =
     Node OtherNode 0
       [Node (FunctionDeclaration (Some (Identifier ''f''))) 0
          [Node OtherNode 9 [], Node OtherNode 13 []]]"

text \<open>
  A destructuring declaration: \<^verbatim>\<open>/** opts */\<close>, then
  \<^verbatim>\<open>const {a, b} = opts;\<close> on the next line.
\<close>

definition opts_comment :: raw_comment where
  "opts_comment = \<lparr>comment = ''* opts '', pos = 11\<rparr>"

definition opts_ast :: node where
  "opts_ast =
     Node OtherNode 0
       [Node (VariableDeclaration [ObjectPattern]) 12
          [Node OtherNode 18
             [Node OtherNode 18 [Node OtherNode 19 [], Node OtherNode 22 []],
              Node OtherNode 27 []]]]"

text \<open>
  The parser on these texts, the empty text included, and a project of three files
  below \<^verbatim>\<open>/w/proj\<close>, whose settings file gives \<^verbatim>\<open>/w/proj/\<close> for
  \<^verbatim>\<open>absPath\<close> and 2 for the verbosity; \<open>files\<close> is the file system and
  \<open>list\<close> what the directory walk selects. The program writes to a terminal in
  \<open>sample_env\<close> and to a pipe in \<open>piped_env\<close>.
\<close>

definition sample_parse :: "string \<Rightarrow> comment_event list \<times> (error + node)" where
  "sample_parse text =
     (if text = add_src then (add_comments, Inr add_ast)
      else if text = flags_src then (flags_comments, Inr flags_ast)
      else if text = anon_src then (anon_comments, Inr anon_ast)
      else if text = half_src then (half_comments, Inl (SyntaxError ''Unexpected token''))
      else if text = [] then ([], Inr (Node OtherNode 0 []))
      else ([], Inl (SyntaxError ''Unexpected token'')))"

definition sample_env :: "(string \<Rightarrow> error + string) \<Rightarrow> string list \<Rightarrow> env" where
  "sample_env files list =
     \<lparr>getRC = \<lparr>absPath = ''/w/proj/'', verbosity = 2\<rparr>,
      exclude = (\<lambda>arr. Inr list),
      dirname = (\<lambda>p. ''/w''),
      readFileSync = files,
      parse = sample_parse,
      isTTY = True\<rparr>"

definition piped_env :: "(string \<Rightarrow> error + string) \<Rightarrow> string list \<Rightarrow> env" where
  "piped_env files list =
     \<lparr>getRC = \<lparr>absPath = ''/w/proj/'', verbosity = 2\<rparr>,
      exclude = (\<lambda>arr. Inr list),
      dirname = (\<lambda>p. ''/w''),
      readFileSync = files,
      parse = sample_parse,
      isTTY = False\<rparr>"

definition sample_files :: "string \<Rightarrow> error + string" where
  "sample_files p =
     (if p = ''/w/proj/add.js'' then Inr add_src
      else if p = ''/w/proj/half.js'' then Inr half_src
      else if p = ''/w/proj/flags.js'' then Inr flags_src
      else Inl (ReadError ''ENOENT''))"

text \<open>A file system in which every path holds the same text.\<close>

definition only :: "string \<Rightarrow> string \<Rightarrow> error + string" where
  "only text p = Inr text"

definition sample_text :: "string \<Rightarrow> string" where
  "sample_text file =
     (if file = ''proj/add.js'' then add_src
      else if file = ''proj/half.js'' then half_src
      else flags_src)"

section \<open>Properties\<close>

subsection \<open>Binding a comment\<close>




lemma pushNames_eq:
  "pushNames c ds tagContent = tagContent @ map (\<lambda>d. \<lparr>tcomment = c, tname = name_of d\<rparr>) ds"
  by (induction ds arbitrary: tagContent) simp_all

lemma bindComment_append:
  "bindComment tree c tagContent =
     (fst (bindComment tree c []), tagContent @ snd (bindComment tree c []))"
  unfolding bindComment_def bindNode_def
  by (cases "findNodeAfter tree (pos c)") (simp_all add: pushNames_eq split: node_type.splits option.splits)

lemma bindAll_prefix:
  "\<exists>k\<le>length cs. snd (bindAll tree cs tagContent) =
       tagContent @ concat (map (\<lambda>c. snd (bindComment tree c [])) (take k cs))
     \<and> (fst (bindAll tree cs tagContent) = None \<longrightarrow> k = length cs)"
proof (induction cs arbitrary: tagContent)
  case Nil
  then show ?case by simp
next
  case (Cons c cs)
  define r where "r = fst (bindComment tree c [])"
  define ts where "ts = snd (bindComment tree c [])"
  have b: "bindComment tree c tagContent = (r, tagContent @ ts)"
    unfolding r_def ts_def by (rule bindComment_append)
  show ?case
  proof (cases r)
    case None
    from Cons.IH [of "tagContent @ ts"] obtain k where k: "k \<le> length cs"
      "snd (bindAll tree cs (tagContent @ ts)) =
         (tagContent @ ts) @ concat (map (\<lambda>c. snd (bindComment tree c [])) (take k cs))"
      "fst (bindAll tree cs (tagContent @ ts)) = None \<longrightarrow> k = length cs" by (elim exE conjE)
    have a1: "Suc k \<le> length (c # cs)" using k(1) by simp
    have a2: "snd (bindAll tree (c # cs) tagContent) =
       tagContent @ concat (map (\<lambda>c. snd (bindComment tree c [])) (take (Suc k) (c # cs)))"
      using k(2) by (simp add: b None ts_def)
    have a3: "fst (bindAll tree (c # cs) tagContent) = None \<longrightarrow> Suc k = length (c # cs)"
      using k(3) by (simp add: b None)
    show ?thesis by (intro exI [of _ "Suc k"] conjI a1 a2 a3)
  next
    case (Some e)
    have a1: "Suc 0 \<le> length (c # cs)" by simp
    have a2: "snd (bindAll tree (c # cs) tagContent) =
       tagContent @ concat (map (\<lambda>c. snd (bindComment tree c [])) (take (Suc 0) (c # cs)))"
      by (simp add: b Some ts_def)
    have a3: "fst (bindAll tree (c # cs) tagContent) = None \<longrightarrow> Suc 0 = length (c # cs)"
      by (simp add: b Some)
    show ?thesis by (intro exI [of _ "Suc 0"] conjI a1 a2 a3)
  qed
qed

lemma collect_eq:
  "collect evs arr = arr @ map (\<lambda>(b, t, s, d). \<lparr>comment = t, pos = d\<rparr>)
       (filter (\<lambda>(b, t, s, d). b \<and> take 1 t = ''*'') evs)"
proof (induction evs arr rule: collect.induct)
  case (1 arr)
  show ?case by simp
next
  case (2 b t s d evs arr)
  have "collect ((b, t, s, d) # evs) arr = onComment b t s d arr @
      map (\<lambda>(b, t, s, d). \<lparr>comment = t, pos = d\<rparr>) (filter (\<lambda>(b, t, s, d). b \<and> take 1 t = ''*'') evs)"
    by (simp add: 2)
  then show ?case by (cases t) (simp_all add: onComment_def)
qed

lemma collect_sorted:
  "sorted (map (\<lambda>(b, t, s, d). d) evs) \<Longrightarrow> sorted (map pos (collect evs []))"
proof -
  assume a: "sorted (map (\<lambda>(b, t, s, d). d) evs)"
  have "map pos (collect evs []) = map (\<lambda>(b, t, s, d). d) (filter (\<lambda>(b, t, s, d). b \<and> take 1 t = ''*'') evs)"
    by (simp add: collect_eq case_prod_unfold comp_def)
  also have "\<dots> = filter (\<lambda>d. True) (map (\<lambda>(b, t, s, d). d) (filter (\<lambda>(b, t, s, d). b \<and> take 1 t = ''*'') evs))" by simp
  finally show ?thesis using a sorted_filter [of "\<lambda>(b, t, s, d). d" evs] by simp
qed

subsection \<open>The loop over the files\<close>

lemma processFile_readable:
  assumes "readFileSync E (filePath E file) = Inr text" and "progressOk E"
  shows "\<exists>out'. processFile E file i (badFiles, out) =
     Inr (\<lparr>content = snd (acornParse E text []), name = file\<rparr>,
          badFiles @ (if fst (acornParse E text []) = None then [] else [file]),
          out')"
  using assms
  by (cases "acornParse E text []"; cases "fst (acornParse E text [])")
     (auto simp: processFile_def errorHandler_def)

lemma processFile_Inr:
  assumes "readFileSync E (filePath E file) = Inr text"
    and "processFile E file i (badFiles, out) = Inr (tag, badFiles', out')"
  shows "tag = \<lparr>content = snd (acornParse E text []), name = file\<rparr>
       \<and> badFiles' = badFiles @ (if fst (acornParse E text []) = None then [] else [file])"
  using assms
  by (cases "acornParse E text []"; cases "fst (acornParse E text [])")
     (auto simp: processFile_def errorHandler_def split: if_splits)

lemma processFile_Inl:
  assumes "processFile E file i st = Inl e"
  shows "readFileSync E (filePath E file) = Inl e
       \<or> (e = TypeError \<and> 2 \<le> verbosity (getRC E) \<and> \<not> isTTY E)"
  using assms
  by (auto simp: processFile_def split: sum.splits prod.splits if_splits)

lemma processFile_piped:
  assumes "readFileSync E (filePath E file) = Inr text"
    and "2 \<le> verbosity (getRC E)" and "\<not> isTTY E"
  shows "processFile E file i st = Inl TypeError"
  using assms by (auto simp: processFile_def split: prod.splits)

lemma mapFiles_readable:
  assumes "\<forall>f\<in>set list. readFileSync E (filePath E f) = Inr (txt f)" and "progressOk E"
  shows "\<exists>out'. mapFiles E list i (badFiles, out) =
     Inr (map (\<lambda>f. \<lparr>content = snd (acornParse E (txt f) []), name = f\<rparr>) list,
          badFiles @ filter (\<lambda>f. fst (acornParse E (txt f) []) \<noteq> None) list,
          out')"
  using assms(1)
proof (induction list arbitrary: i badFiles out)
  case Nil
  then show ?case by simp
next
  case (Cons f fs)
  from Cons.prems have rd: "readFileSync E (filePath E f) = Inr (txt f)" by simp
  define bad1 where "bad1 = badFiles @ (if fst (acornParse E (txt f) []) = None then [] else [f])"
  from processFile_readable [OF rd assms(2), of i badFiles out] obtain out1 where
    p: "processFile E f i (badFiles, out) =
          Inr (\<lparr>content = snd (acornParse E (txt f) []), name = f\<rparr>, bad1, out1)"
    unfolding bad1_def by (elim exE)
  from Cons.prems have "\<forall>f\<in>set fs. readFileSync E (filePath E f) = Inr (txt f)" by simp
  from Cons.IH [OF this, of "Suc i" bad1 out1] obtain out2 where
    m: "mapFiles E fs (Suc i) (bad1, out1) =
          Inr (map (\<lambda>f. \<lparr>content = snd (acornParse E (txt f) []), name = f\<rparr>) fs,
               bad1 @ filter (\<lambda>f. fst (acornParse E (txt f) []) \<noteq> None) fs,
               out2)"
    by (elim exE)
  have "mapFiles E (f # fs) i (badFiles, out) =
     Inr (\<lparr>content = snd (acornParse E (txt f) []), name = f\<rparr> #
            map (\<lambda>f. \<lparr>content = snd (acornParse E (txt f) []), name = f\<rparr>) fs,
          bad1 @ filter (\<lambda>f. fst (acornParse E (txt f) []) \<noteq> None) fs,
          out2)"
    by (simp add: p m)
  then have "mapFiles E (f # fs) i (badFiles, out) =
     Inr (map (\<lambda>f. \<lparr>content = snd (acornParse E (txt f) []), name = f\<rparr>) (f # fs),
          badFiles @ filter (\<lambda>f. fst (acornParse E (txt f) []) \<noteq> None) (f # fs),
          out2)"
    by (simp add: bad1_def)
  then show ?case by (rule exI)
qed

text \<open>
  Whatever the output is, a loop that ends has made the entry of each file from the text
  of that file, and has pushed onto \<^verbatim>\<open>badFiles\<close> the files whose processing raised
  an exception, in their order.
\<close>

lemma mapFiles_Inr:
  assumes "\<forall>f\<in>set list. readFileSync E (filePath E f) = Inr (txt f)"
    and "mapFiles E list i (badFiles, out) = Inr (result, badFiles', out')"
  shows "result = map (\<lambda>f. \<lparr>content = snd (acornParse E (txt f) []), name = f\<rparr>) list
       \<and> badFiles' = badFiles @ filter (\<lambda>f. fst (acornParse E (txt f) []) \<noteq> None) list"
  using assms
proof (induction list arbitrary: i badFiles out result)
  case Nil
  then show ?case by simp
next
  case (Cons f fs)
  from Cons.prems(1) have rd: "readFileSync E (filePath E f) = Inr (txt f)" by simp
  from Cons.prems(2) obtain tag bad1 out1 where
    p: "processFile E f i (badFiles, out) = Inr (tag, bad1, out1)"
    by (auto split: sum.splits)
  from Cons.prems(2) p obtain tags where
    m: "mapFiles E fs (Suc i) (bad1, out1) = Inr (tags, badFiles', out')" and
    res: "result = tag # tags"
    by (auto split: sum.splits)
  from processFile_Inr [OF rd p] have
    tag: "tag = \<lparr>content = snd (acornParse E (txt f) []), name = f\<rparr>" and
    bad1: "bad1 = badFiles @ (if fst (acornParse E (txt f) []) = None then [] else [f])"
    by simp_all
  from Cons.prems(1) have "\<forall>f\<in>set fs. readFileSync E (filePath E f) = Inr (txt f)" by simp
  from Cons.IH [OF this m] have
    ih: "tags = map (\<lambda>f. \<lparr>content = snd (acornParse E (txt f) []), name = f\<rparr>) fs"
        "badFiles' = bad1 @ filter (\<lambda>f. fst (acornParse E (txt f) []) \<noteq> None) fs"
    by simp_all
  from res tag ih(1) have
    "result = map (\<lambda>f. \<lparr>content = snd (acornParse E (txt f) []), name = f\<rparr>) (f # fs)"
    by simp
  moreover from ih(2) bad1 have
    "badFiles' = badFiles @ filter (\<lambda>f. fst (acornParse E (txt f) []) \<noteq> None) (f # fs)"
    by simp
  ultimately show ?case by (rule conjI)
qed

text \<open>
  A loop that is left by an exception is left by a failure of \<^verbatim>\<open>readFileSync\<close> or by
  the \<^verbatim>\<open>TypeError\<close> of the progress line, never by an exception of
  \<^verbatim>\<open>acornParse\<close>.
\<close>

lemma mapFiles_Inl:
  assumes "mapFiles E list i st = Inl e"
  shows "(\<exists>f\<in>set list. readFileSync E (filePath E f) = Inl e)
       \<or> (e = TypeError \<and> 2 \<le> verbosity (getRC E) \<and> \<not> isTTY E)"
  using assms
proof (induction list arbitrary: i st)
  case Nil
  then show ?case by simp
next
  case (Cons g gs)
  show ?case
  proof (cases "processFile E g i st")
    case (Inl e')
    with Cons.prems have "e' = e" by simp
    with processFile_Inl [OF Inl] show ?thesis by auto
  next
    case (Inr r)
    obtain tag st' where r: "r = (tag, st')" by (cases r)
    from Cons.prems Inr r have "mapFiles E gs (Suc i) st' = Inl e"
      by (auto split: sum.splits)
    from Cons.IH [OF this] show ?thesis by auto
  qed
qed

lemma mapFiles_unreadable:
  assumes "f \<in> set list" "readFileSync E (filePath E f) = Inl e"
  shows "\<exists>e'. mapFiles E list i st = Inl e'"
  using assms
proof (induction list arbitrary: i st)
  case Nil
  then show ?case by simp
next
  case (Cons g gs)
  show ?case
  proof (cases "processFile E g i st")
    case (Inl e')
    then show ?thesis by simp
  next
    case (Inr r)
    obtain tag st' where r: "r = (tag, st')" by (cases r)
    have "readFileSync E (filePath E g) \<noteq> Inl e"
      using Inr by (auto simp: processFile_def split: sum.splits)
    with Cons.prems have "f \<in> set gs" by auto
    from Cons.IH [OF this Cons.prems(2), of "Suc i" st'] obtain e' where
      "mapFiles E gs (Suc i) st' = Inl e'" by (elim exE)
    then show ?thesis by (simp add: Inr r)
  qed
qed

lemma mapFiles_piped:
  assumes "\<forall>f\<in>set list. readFileSync E (filePath E f) = Inr (txt f)"
    and "list \<noteq> []" and "2 \<le> verbosity (getRC E)" and "\<not> isTTY E"
  shows "mapFiles E list i st = Inl TypeError"
proof (cases list)
  case Nil
  with assms(2) show ?thesis by simp
next
  case (Cons f fs)
  with assms(1) have "readFileSync E (filePath E f) = Inr (txt f)" by simp
  from processFile_piped [OF this assms(3,4)] show ?thesis by (simp add: Cons)
qed


subsection \<open>The run\<close>

text \<open>The definitions a run on the sample texts unfolds.\<close>

lemmas sample_defs =
  sample_env_def piped_env_def sample_parse_def sample_files_def sample_text_def only_def
  add_src_def add_comments_def add_ast_def flags_src_def flags_comments_def flags_ast_def
  half_src_def half_comments_def anon_src_def anon_comments_def anon_ast_def
  trailing_comment_def trailing_ast_def opts_comment_def opts_ast_def

lemmas run_defs =
  extractFiles_def extractRun_def processFile_def errorHandler_def summary_def acornParse_def
  onComment_def bindComment_def bindNode_def findNodeAfter_def



lemma extractRun_Inr:
  assumes "exclude E arr = Inr list"
    and "extractRun E arr = Inr (result, badFiles, out)"
  shows "\<exists>out0. mapFiles E list 0 ([], []) = Inr (result, badFiles, out0)
           \<and> out = out0 @ summary (getRC E) (length list) badFiles"
  using assms
  by (cases "mapFiles E list 0 ([], [])") (auto simp: extractRun_def)

lemma extractFiles_Inr:
  assumes "extractFiles E arr = Inr result"
  shows "\<exists>badFiles out. extractRun E arr = Inr (result, badFiles, out)"
  using assms
  by (cases "extractRun E arr") (auto simp: extractFiles_def)

lemma extractRun_resolves:
  assumes "exclude E arr = Inr list"
    and "\<forall>f\<in>set list. readFileSync E (filePath E f) = Inr (txt f)"
    and "progressOk E"
  shows "\<exists>out. extractRun E arr =
     Inr (map (\<lambda>f. \<lparr>content = snd (acornParse E (txt f) []), name = f\<rparr>) list, filter (\<lambda>f. fst (acornParse E (txt f) []) \<noteq> None) list, out)"
proof -
  from mapFiles_readable [OF assms(2,3), of 0 "[]" "[]"] obtain out' where
    "mapFiles E list 0 ([], []) =
       Inr (map (\<lambda>f. \<lparr>content = snd (acornParse E (txt f) []), name = f\<rparr>) list, [] @ filter (\<lambda>f. fst (acornParse E (txt f) []) \<noteq> None) list, out')"
    by (elim exE)
  then show ?thesis by (simp add: extractRun_def assms(1))
qed


text \<open>Every file of the sample project can be read, from a terminal or not.\<close>

lemma sample_readable:
  "\<forall>f\<in>set [''proj/add.js'', ''proj/half.js'', ''proj/flags.js''].
      readFileSync (sample_env sample_files [''proj/add.js'', ''proj/half.js'', ''proj/flags.js''])
        (filePath (sample_env sample_files [''proj/add.js'', ''proj/half.js'', ''proj/flags.js'']) f)
      = Inr (sample_text f)"
  by (simp add: sample_env_def sample_files_def sample_text_def)

lemma piped_readable:
  "\<forall>f\<in>set [''proj/add.js'', ''proj/half.js'', ''proj/flags.js''].
      readFileSync (piped_env sample_files [''proj/add.js'', ''proj/half.js'', ''proj/flags.js''])
        (filePath (piped_env sample_files [''proj/add.js'', ''proj/half.js'', ''proj/flags.js'']) f)
      = Inr (sample_text f)"
  by (simp add: piped_env_def sample_files_def sample_text_def)

text \<open>
  Claim C1, as amended. When the extraction completes, the promise resolves with
  \<^verbatim>\<open>result\<close> alone: the entry of each selected file, made from the text of that
  file, in the order of the selection. The paths of the files whose processing raised an
  exception are kept, in that order, in the local array \<^verbatim>\<open>badFiles\<close>, which is only
  printed, by the summary at the end of the run.
\<close>

theorem extract_resolves_with_result_only:
  assumes "extractRun E arr = Inr (result, badFiles, out)"
  shows "extractFiles E arr = Inr result \<and>
         (\<exists>list txt out0. exclude E arr = Inr list
             \<and> (\<forall>f\<in>set list. readFileSync E (filePath E f) = Inr (txt f))
             \<and> result = map (\<lambda>f. \<lparr>content = snd (acornParse E (txt f) []), name = f\<rparr>) list
             \<and> badFiles = filter (\<lambda>f. fst (acornParse E (txt f) []) \<noteq> None) list
             \<and> out = out0 @ summary (getRC E) (length list) badFiles)"
proof -
  from assms obtain list where l: "exclude E arr = Inr list"
    by (cases "exclude E arr") (simp_all add: extractRun_def)
  from extractRun_Inr [OF l assms] obtain out0 where
    m: "mapFiles E list 0 ([], []) = Inr (result, badFiles, out0)" and
    o: "out = out0 @ summary (getRC E) (length list) badFiles"
    by (elim exE conjE)
  define tx where
    "tx = (\<lambda>f. case readFileSync E (filePath E f) of Inl e \<Rightarrow> [] | Inr t \<Rightarrow> t)"
  have rd: "\<forall>f\<in>set list. readFileSync E (filePath E f) = Inr (tx f)"
  proof
    fix f assume f: "f \<in> set list"
    show "readFileSync E (filePath E f) = Inr (tx f)"
    proof (cases "readFileSync E (filePath E f)")
      case (Inl e)
      from mapFiles_unreadable [OF f Inl, of 0 "([], [])"] m show ?thesis by simp
    next
      case (Inr t)
      then show ?thesis by (simp add: tx_def)
    qed
  qed
  from mapFiles_Inr [OF rd m] have
    r: "result = map (\<lambda>f. \<lparr>content = snd (acornParse E (tx f) []), name = f\<rparr>) list" and
    b: "badFiles = filter (\<lambda>f. fst (acornParse E (tx f) []) \<noteq> None) list"
    by simp_all
  have x: "extractFiles E arr = Inr result" by (simp add: extractFiles_def assms)
  from l rd r b o have "\<exists>list txt out0. exclude E arr = Inr list
             \<and> (\<forall>f\<in>set list. readFileSync E (filePath E f) = Inr (txt f))
             \<and> result = map (\<lambda>f. \<lparr>content = snd (acornParse E (txt f) []), name = f\<rparr>) list
             \<and> badFiles = filter (\<lambda>f. fst (acornParse E (txt f) []) \<noteq> None) list
             \<and> out = out0 @ summary (getRC E) (length list) badFiles"
    by (intro exI [of _ list] exI [of _ tx] exI [of _ out0] conjI)
  with x show ?thesis by (rule conjI)
qed

text \<open>The theorem on a run over one file with a syntax error.\<close>

theorem extract_resolves_with_result_only_witness:
  "extractRun (sample_env (only half_src) [''proj/a.js'']) [''proj''] =
     Inr ([\<lparr>content = [], name = ''proj/a.js''\<rparr>], [''proj/a.js''],
          [Progress 0 ''proj/a.js'', FilesProcessed 1, UnparsableFiles 1 [''proj/a.js'']])
   \<and> extractFiles (sample_env (only half_src) [''proj/a.js'']) [''proj''] =
     Inr [\<lparr>content = [], name = ''proj/a.js''\<rparr>]"
proof -
  have h: "extractRun (sample_env (only half_src) [''proj/a.js'']) [''proj''] =
     Inr ([\<lparr>content = [], name = ''proj/a.js''\<rparr>], [''proj/a.js''],
          [Progress 0 ''proj/a.js'', FilesProcessed 1, UnparsableFiles 1 [''proj/a.js'']])"
    by (simp add: run_defs sample_defs)
  from extract_resolves_with_result_only [OF h] h show ?thesis by simp
qed

text \<open>
  Claim C1 as stated fails: the resolved value holds no list of failed paths. A run over
  a file with a syntax error and a run over an empty file of the same name resolve with
  the same value, while \<^verbatim>\<open>badFiles\<close> holds the path in the first run and nothing in
  the second.
\<close>

theorem extract_resolved_value_omits_bad_files:
  "extractRun (sample_env (only half_src) [''proj/a.js'']) [''proj''] =
     Inr ([\<lparr>content = [], name = ''proj/a.js''\<rparr>], [''proj/a.js''],
          [Progress 0 ''proj/a.js'', FilesProcessed 1, UnparsableFiles 1 [''proj/a.js'']])
   \<and> extractRun (sample_env (only []) [''proj/a.js'']) [''proj''] =
     Inr ([\<lparr>content = [], name = ''proj/a.js''\<rparr>], [],
          [Progress 0 ''proj/a.js'', FilesProcessed 1])
   \<and> extractFiles (sample_env (only half_src) [''proj/a.js'']) [''proj''] =
       Inr [\<lparr>content = [], name = ''proj/a.js''\<rparr>]
   \<and> extractFiles (sample_env (only []) [''proj/a.js'']) [''proj''] =
       Inr [\<lparr>content = [], name = ''proj/a.js''\<rparr>]"
  by (simp add: run_defs sample_defs)





text \<open>
  Claim C4 fails on the code for an exception raised while binding. In the text
  \<open>anon_src\<close> the first comment is bound to the function \<^verbatim>\<open>f\<close>; the second
  stands before a function declaration without \<^verbatim>\<open>id\<close>, and reading
  \<^verbatim>\<open>node.id.name\<close> raises a \<^verbatim>\<open>TypeError\<close>, which the \<^verbatim>\<open>catch\<close> of
  \<^verbatim>\<open>extract\<close> takes for a file that does not parse. The file is recorded in
  \<^verbatim>\<open>badFiles\<close> and printed as unparsable, and its entry keeps the tag pushed before
  the exception. (An exception of the parser itself leaves no tag: see
  \<open>acornParse_parse_failure\<close>.)
\<close>

theorem binding_failure_keeps_partial_content:
  "extractRun (sample_env (only anon_src) [''proj/a.js'']) [''proj''] =
     Inr ([\<lparr>content = [\<lparr>tcomment = ''* a '', tname = Some ''f''\<rparr>], name = ''proj/a.js''\<rparr>],
          [''proj/a.js''],
          [Progress 0 ''proj/a.js'', FilesProcessed 1, UnparsableFiles 1 [''proj/a.js'']])"
  by (simp add: run_defs sample_defs)





text \<open>
  Claim C7. For the text \<open>add_src\<close>, with the comment and the tree acorn gives for it,
  \<^verbatim>\<open>acornParse\<close> pushes the one tag with the text \<^verbatim>\<open>* Adds two numbers \<close>
  and the name \<^verbatim>\<open>add\<close>. The comment reported is the text between the delimiters and
  ends at offset 23; the comments collected are the block comments whose first character
  is a star, in the order reported; and a function declaration with an identifier
  gives the name of the identifier.
\<close>

theorem add_scenario:
  "(parse E add_src = (add_comments, Inr add_ast) \<longrightarrow>
      acornParse E add_src [] =
        (None, [\<lparr>tcomment = ''* Adds two numbers '', tname = Some ''add''\<rparr>]))
   \<and> take 23 add_src = ''/*'' @ ''* Adds two numbers '' @ ''*/''
   \<and> collect evs [] = map (\<lambda>(b, t, s, d). \<lparr>comment = t, pos = d\<rparr>)
        (filter (\<lambda>(b, t, s, d). b \<and> take 1 t = ''*'') evs)
   \<and> (findNodeAfter tree (pos c) = Some node
        \<and> ntype node = FunctionDeclaration (Some (Identifier f)) \<longrightarrow>
      bindComment tree c tagContent =
        (None, tagContent @ [\<lparr>tcomment = comment c, tname = Some f\<rparr>]))"
proof (intro conjI impI)
  assume "parse E add_src = (add_comments, Inr add_ast)"
  then show "acornParse E add_src [] =
        (None, [\<lparr>tcomment = ''* Adds two numbers '', tname = Some ''add''\<rparr>])"
    by (simp add: acornParse_def add_comments_def add_ast_def onComment_def
        bindComment_def bindNode_def findNodeAfter_def)
next
  show "take 23 add_src = ''/*'' @ ''* Adds two numbers '' @ ''*/''"
    by (simp add: add_src_def)
next
  show "collect evs [] = map (\<lambda>(b, t, s, d). \<lparr>comment = t, pos = d\<rparr>)
        (filter (\<lambda>(b, t, s, d). b \<and> take 1 t = ''*'') evs)"
    by (simp add: collect_eq)
next
  assume "findNodeAfter tree (pos c) = Some node
        \<and> ntype node = FunctionDeclaration (Some (Identifier f))"
  then show "bindComment tree c tagContent =
        (None, tagContent @ [\<lparr>tcomment = comment c, tname = Some f\<rparr>])"
    by (simp add: bindComment_def bindNode_def)
qed

text \<open>
  The theorem with the parser of the sample project.
\<close>

theorem add_scenario_witness:
  "parse (sample_env sample_files []) add_src = (add_comments, Inr add_ast)
   \<and> acornParse (sample_env sample_files []) add_src [] =
        (None, [\<lparr>tcomment = ''* Adds two numbers '', tname = Some ''add''\<rparr>])"
proof -
  have p: "parse (sample_env sample_files []) add_src = (add_comments, Inr add_ast)"
    by (simp add: sample_defs)
  from add_scenario [of "sample_env sample_files []"] p show ?thesis by simp
qed

text \<open>
  The tags of a file that parses are the tags of its doc comments, up to the first
  comment whose binding raises an exception.
\<close>

lemma acornParse_prefix:
  assumes "parse E text = (evs, Inr tree)"
  shows "\<exists>k\<le>length (collect evs []).
           snd (acornParse E text []) =
             concat (map (\<lambda>c. snd (bindComment tree c [])) (take k (collect evs [])))
         \<and> (fst (acornParse E text []) = None \<longrightarrow> k = length (collect evs []))"
proof -
  have a: "acornParse E text [] = bindAll tree (collect evs []) []"
    by (simp add: acornParse_def assms)
  from bindAll_prefix [of "collect evs []" tree "[]"] show ?thesis
    unfolding a by simp
qed

text \<open>
  Claim C8. Over files that can be read, the entries of a resolved value are named after
  the selected files, in the order of the selection. In the entry of a file that parses,
  the tags are those of the doc comments, one comment after the other in the order the
  parser reported them: of all of them when no exception was raised, of the first ones
  otherwise; the entry of a file that does not parse has no tags. The promise is
  resolved whenever the progress line can be printed. The comments collected are the doc
  comments in the order the parser reported them, by increasing end offset when the
  parser reports them in the order of the text, and the tags of a variable declaration
  follow the order of its declarators.
\<close>

theorem order_is_preserved:
  assumes "exclude E arr = Inr list"
    and "\<forall>f\<in>set list. readFileSync E (filePath E f) = Inr (txt f)"
  shows "(\<forall>result. extractFiles E arr = Inr result \<longrightarrow>
       map name result = list
     \<and> (\<forall>j<length list. \<forall>evs tree. parse E (txt (list ! j)) = (evs, Inr tree) \<longrightarrow>
          (\<exists>k\<le>length (collect evs []).
              content (result ! j) =
                concat (map (\<lambda>c. snd (bindComment tree c [])) (take k (collect evs [])))
            \<and> (fst (acornParse E (txt (list ! j)) []) = None \<longrightarrow> k = length (collect evs []))))
     \<and> (\<forall>j<length list. \<forall>evs e. parse E (txt (list ! j)) = (evs, Inl e) \<longrightarrow>
          content (result ! j) = []))
     \<and> (progressOk E \<longrightarrow> (\<exists>result. extractFiles E arr = Inr result))
     \<and> (\<forall>evs. collect evs [] = map (\<lambda>(b, t, s, d). \<lparr>comment = t, pos = d\<rparr>)
            (filter (\<lambda>(b, t, s, d). b \<and> take 1 t = ''*'') evs)
          \<and> (sorted (map (\<lambda>(b, t, s, d). d) evs) \<longrightarrow> sorted (map pos (collect evs []))))
     \<and> (\<forall>tree c node declarations.
           findNodeAfter tree (pos c) = Some node \<and> ntype node = VariableDeclaration declarations \<longrightarrow>
           snd (bindComment tree c []) =
             map (\<lambda>d. \<lparr>tcomment = comment c, tname = name_of d\<rparr>) declarations)"
proof -
  have a: "\<forall>result. extractFiles E arr = Inr result \<longrightarrow>
       map name result = list
     \<and> (\<forall>j<length list. \<forall>evs tree. parse E (txt (list ! j)) = (evs, Inr tree) \<longrightarrow>
          (\<exists>k\<le>length (collect evs []).
              content (result ! j) =
                concat (map (\<lambda>c. snd (bindComment tree c [])) (take k (collect evs [])))
            \<and> (fst (acornParse E (txt (list ! j)) []) = None \<longrightarrow> k = length (collect evs []))))
     \<and> (\<forall>j<length list. \<forall>evs e. parse E (txt (list ! j)) = (evs, Inl e) \<longrightarrow>
          content (result ! j) = [])"
  proof (intro allI impI)
    fix result assume x: "extractFiles E arr = Inr result"
    from extractFiles_Inr [OF x] obtain badFiles out where
      "extractRun E arr = Inr (result, badFiles, out)" by (elim exE)
    from extractRun_Inr [OF assms(1) this] obtain out0 where
      m: "mapFiles E list 0 ([], []) = Inr (result, badFiles, out0)" by (elim exE conjE)
    from mapFiles_Inr [OF assms(2) m] have r: "result = map (\<lambda>f. \<lparr>content = snd (acornParse E (txt f) []), name = f\<rparr>) list" by simp
    have n: "map name result = list"
      by (simp add: r comp_def)
    have c: "\<forall>j<length list. \<forall>evs tree. parse E (txt (list ! j)) = (evs, Inr tree) \<longrightarrow>
          (\<exists>k\<le>length (collect evs []).
              content (result ! j) =
                concat (map (\<lambda>c. snd (bindComment tree c [])) (take k (collect evs [])))
            \<and> (fst (acornParse E (txt (list ! j)) []) = None \<longrightarrow> k = length (collect evs [])))"
    proof (intro allI impI)
      fix j evs tree
      assume j: "j < length list" and p: "parse E (txt (list ! j)) = (evs, Inr tree)"
      from j have "content (result ! j) = snd (acornParse E (txt (list ! j)) [])"
        by (simp add: r)
      with acornParse_prefix [OF p] show "\<exists>k\<le>length (collect evs []).
              content (result ! j) =
                concat (map (\<lambda>c. snd (bindComment tree c [])) (take k (collect evs [])))
            \<and> (fst (acornParse E (txt (list ! j)) []) = None \<longrightarrow> k = length (collect evs []))"
        by simp
    qed
    have f: "\<forall>j<length list. \<forall>evs e. parse E (txt (list ! j)) = (evs, Inl e) \<longrightarrow>
          content (result ! j) = []"
      by (simp add: r acornParse_def)
    from n c f show "map name result = list
     \<and> (\<forall>j<length list. \<forall>evs tree. parse E (txt (list ! j)) = (evs, Inr tree) \<longrightarrow>
          (\<exists>k\<le>length (collect evs []).
              content (result ! j) =
                concat (map (\<lambda>c. snd (bindComment tree c [])) (take k (collect evs [])))
            \<and> (fst (acornParse E (txt (list ! j)) []) = None \<longrightarrow> k = length (collect evs []))))
     \<and> (\<forall>j<length list. \<forall>evs e. parse E (txt (list ! j)) = (evs, Inl e) \<longrightarrow>
          content (result ! j) = [])"
      by (intro conjI)
  qed
  have t: "progressOk E \<longrightarrow> (\<exists>result. extractFiles E arr = Inr result)"
  proof
    assume "progressOk E"
    from extractRun_resolves [OF assms this] obtain out where
      "extractRun E arr = Inr (map (\<lambda>f. \<lparr>content = snd (acornParse E (txt f) []), name = f\<rparr>) list, filter (\<lambda>f. fst (acornParse E (txt f) []) \<noteq> None) list, out)" by (elim exE)
    then have "extractFiles E arr = Inr (map (\<lambda>f. \<lparr>content = snd (acornParse E (txt f) []), name = f\<rparr>) list)" by (simp add: extractFiles_def)
    then show "\<exists>result. extractFiles E arr = Inr result" by (rule exI)
  qed
  have e: "\<forall>evs. collect evs [] = map (\<lambda>(b, t, s, d). \<lparr>comment = t, pos = d\<rparr>)
            (filter (\<lambda>(b, t, s, d). b \<and> take 1 t = ''*'') evs)
          \<and> (sorted (map (\<lambda>(b, t, s, d). d) evs) \<longrightarrow> sorted (map pos (collect evs [])))"
    using collect_eq [of _ "[]"] collect_sorted by simp
  have d: "\<forall>tree c node declarations.
           findNodeAfter tree (pos c) = Some node \<and> ntype node = VariableDeclaration declarations \<longrightarrow>
           snd (bindComment tree c []) =
             map (\<lambda>d. \<lparr>tcomment = comment c, tname = name_of d\<rparr>) declarations"
    by (simp add: bindComment_def bindNode_def pushNames_eq)
  from a t e d show ?thesis by (intro conjI)
qed

text \<open>
  The theorem on the sample project.
\<close>

theorem order_is_preserved_witness:
  "extractFiles (sample_env sample_files [''proj/add.js'', ''proj/half.js'', ''proj/flags.js'']) [''proj''] = Inr [\<lparr>content = [\<lparr>tcomment = ''* Adds two numbers '', tname = Some ''add''\<rparr>],
                 name = ''proj/add.js''\<rparr>,
               \<lparr>content = [], name = ''proj/half.js''\<rparr>,
               \<lparr>content = [\<lparr>tcomment = ''* Config flag '', tname = Some ''DEBUG''\<rparr>,
                           \<lparr>tcomment = ''* Config flag '', tname = Some ''VERBOSE''\<rparr>],
                 name = ''proj/flags.js''\<rparr>]
     \<and> map name [\<lparr>content = [\<lparr>tcomment = ''* Adds two numbers '', tname = Some ''add''\<rparr>],
                 name = ''proj/add.js''\<rparr>,
               \<lparr>content = [], name = ''proj/half.js''\<rparr>,
               \<lparr>content = [\<lparr>tcomment = ''* Config flag '', tname = Some ''DEBUG''\<rparr>,
                           \<lparr>tcomment = ''* Config flag '', tname = Some ''VERBOSE''\<rparr>],
                 name = ''proj/flags.js''\<rparr>] = [''proj/add.js'', ''proj/half.js'', ''proj/flags.js'']"
proof -
  have h: "exclude (sample_env sample_files [''proj/add.js'', ''proj/half.js'', ''proj/flags.js'']) [''proj''] = Inr [''proj/add.js'', ''proj/half.js'', ''proj/flags.js'']"
    by (simp add: sample_env_def)
  have x: "extractFiles (sample_env sample_files [''proj/add.js'', ''proj/half.js'', ''proj/flags.js'']) [''proj''] = Inr [\<lparr>content = [\<lparr>tcomment = ''* Adds two numbers '', tname = Some ''add''\<rparr>],
                 name = ''proj/add.js''\<rparr>,
               \<lparr>content = [], name = ''proj/half.js''\<rparr>,
               \<lparr>content = [\<lparr>tcomment = ''* Config flag '', tname = Some ''DEBUG''\<rparr>,
                           \<lparr>tcomment = ''* Config flag '', tname = Some ''VERBOSE''\<rparr>],
                 name = ''proj/flags.js''\<rparr>]"
    by (simp add: run_defs sample_defs)
  from order_is_preserved [OF h sample_readable] x show ?thesis by simp
qed



text \<open>
  Claim C10. When a selected file cannot be read, the promise is rejected and there is
  no result: the exception of \<^verbatim>\<open>readFileSync\<close> is not caught. The error is that of
  an unreadable file, unless the \<^verbatim>\<open>TypeError\<close> of the progress line (verbosity 2 or
  above, output not a terminal) has rejected the promise before.
\<close>

theorem read_failure_rejects:
  assumes "exclude E arr = Inr list"
    and "file \<in> set list"
    and "readFileSync E (filePath E file) = Inl e"
  shows "(\<exists>e'. extractRun E arr = Inl e' \<and> extractFiles E arr = Inl e'
            \<and> ((\<exists>f'\<in>set list. readFileSync E (filePath E f') = Inl e')
                 \<or> (e' = TypeError \<and> 2 \<le> verbosity (getRC E) \<and> \<not> isTTY E)))
       \<and> (progressOk E \<longrightarrow>
            (\<exists>f' e'. f' \<in> set list \<and> readFileSync E (filePath E f') = Inl e'
               \<and> extractRun E arr = Inl e' \<and> extractFiles E arr = Inl e'))"
proof -
  from mapFiles_unreadable [OF assms(2,3), of 0 "([], [])"] obtain e' where
    m: "mapFiles E list 0 ([], []) = Inl e'" by (elim exE)
  have run: "extractRun E arr = Inl e'" by (simp add: extractRun_def assms(1) m)
  then have x: "extractFiles E arr = Inl e'" by (simp add: extractFiles_def)
  from mapFiles_Inl [OF m] have
    c: "(\<exists>f'\<in>set list. readFileSync E (filePath E f') = Inl e')
          \<or> (e' = TypeError \<and> 2 \<le> verbosity (getRC E) \<and> \<not> isTTY E)" .
  from run x c have first: "\<exists>e'. extractRun E arr = Inl e' \<and> extractFiles E arr = Inl e'
            \<and> ((\<exists>f'\<in>set list. readFileSync E (filePath E f') = Inl e')
                 \<or> (e' = TypeError \<and> 2 \<le> verbosity (getRC E) \<and> \<not> isTTY E))"
    by (intro exI [of _ e'] conjI)
  have second: "progressOk E \<longrightarrow>
            (\<exists>f' e'. f' \<in> set list \<and> readFileSync E (filePath E f') = Inl e'
               \<and> extractRun E arr = Inl e' \<and> extractFiles E arr = Inl e')"
  proof
    assume "progressOk E"
    with c obtain f' where "f' \<in> set list" "readFileSync E (filePath E f') = Inl e'"
      by auto
    with run x show "\<exists>f' e'. f' \<in> set list \<and> readFileSync E (filePath E f') = Inl e'
               \<and> extractRun E arr = Inl e' \<and> extractFiles E arr = Inl e'"
      by (intro exI [of _ f'] exI [of _ e'] conjI)
  qed
  from first second show ?thesis by (rule conjI)
qed

text \<open>
  The theorem on a project whose second file is gone, with the output on a terminal and
  on a pipe.
\<close>

theorem read_failure_rejects_witness:
  "extractFiles (sample_env sample_files [''proj/add.js'', ''proj/gone.js'', ''proj/flags.js'']) [''proj'']
     = Inl (ReadError ''ENOENT'')
   \<and> extractFiles (piped_env sample_files [''proj/add.js'', ''proj/gone.js'', ''proj/flags.js'']) [''proj'']
     = Inl TypeError"
proof -
  have h: "exclude (sample_env sample_files [''proj/add.js'', ''proj/gone.js'', ''proj/flags.js'']) [''proj'']
      = Inr [''proj/add.js'', ''proj/gone.js'', ''proj/flags.js'']"
    by (simp add: sample_env_def)
  have m: "''proj/gone.js'' \<in> set [''proj/add.js'', ''proj/gone.js'', ''proj/flags.js'']"
    by simp
  have r: "readFileSync (sample_env sample_files [''proj/add.js'', ''proj/gone.js'', ''proj/flags.js''])
             (filePath (sample_env sample_files [''proj/add.js'', ''proj/gone.js'', ''proj/flags.js''])
                ''proj/gone.js'') = Inl (ReadError ''ENOENT'')"
    by (simp add: sample_env_def sample_files_def)
  have x: "extractFiles (sample_env sample_files [''proj/add.js'', ''proj/gone.js'', ''proj/flags.js'']) [''proj'']
     = Inl (ReadError ''ENOENT'')
   \<and> extractFiles (piped_env sample_files [''proj/add.js'', ''proj/gone.js'', ''proj/flags.js'']) [''proj'']
     = Inl TypeError"
    by (simp add: run_defs sample_defs)
  from read_failure_rejects [OF h m r] x show ?thesis by simp
qed

end
